theory Spec2Isabelle
  imports Complex_Main "HOL-Library.Multiset" "HOL-Library.Sublist"
begin

section \<open>Values, records and the platform\<close>

text \<open>
  The table holds rows of type \<^verbatim>\<open>Record<string, any>\<close>. A field value is any
  JavaScript value; the comparator and the row keys look at it through \<^verbatim>\<open>===\<close>,
  \<^verbatim>\<open>typeof\<close>, subtraction, \<^verbatim>\<open>String(...)\<close> and \<^verbatim>\<open>localeCompare\<close>.
  Objects are represented by their reference, so that HOL equality on \<open>jsval\<close> is
  \<^verbatim>\<open>===\<close>. Numbers are the finite ones, as reals (the sign of a difference of two
  finite doubles is the sign of the exact difference); \<^verbatim>\<open>NaN\<close> and the infinities are
  outside the model.
\<close>

datatype jsval = JUndefined | JNull | JBool bool | JNum real | JStr string | JObj nat

type_synonym row = "(string \<times> jsval) list"

text \<open>Reading a property that the record does not have gives \<^verbatim>\<open>undefined\<close>.\<close>

definition getProp :: "row \<Rightarrow> string \<Rightarrow> jsval" where
  "getProp r k = (case map_of r k of None \<Rightarrow> JUndefined | Some v \<Rightarrow> v)"

text \<open>
  \<^verbatim>\<open>String.prototype.localeCompare\<close> and the conversion \<^verbatim>\<open>String(v)\<close> belong to the
  JavaScript engine and its locale, not to the repository: they are parameters.
\<close>

record platform =
  localeCompare :: "string \<Rightarrow> string \<Rightarrow> real"
  String :: "jsval \<Rightarrow> string"

text \<open>\<open>sortable\<close> is an optional property: \<open>None\<close> is \<^verbatim>\<open>undefined\<close>, which is falsy.\<close>

record Column =
  key :: string
  title :: string
  dataIndex :: string
  sortable :: "bool option"

datatype direction = Asc | Desc

record SortState =
  key :: string
  direction :: direction

definition nullish :: "jsval \<Rightarrow> bool" where
  "nullish v = (v = JNull \<or> v = JUndefined)"

fun isString :: "jsval \<Rightarrow> bool" where
  "isString (JStr s) = True"
| "isString v = False"

fun isNumber :: "jsval \<Rightarrow> bool" where
  "isNumber (JNum x) = True"
| "isNumber v = False"

fun strOf :: "jsval \<Rightarrow> string" where
  "strOf (JStr s) = s"
| "strOf v = []"

fun numOf :: "jsval \<Rightarrow> real" where
  "numOf (JNum x) = x"
| "numOf v = 0"

section \<open>The sort comparator (DataTable.tsx, lines 66 to 84)\<close>

text \<open>The three branches that compute \<^verbatim>\<open>comparison\<close> for two defined values.\<close>

definition comparison :: "platform \<Rightarrow> jsval \<Rightarrow> jsval \<Rightarrow> real" where
  "comparison P aValue bValue =
     (if isString aValue \<and> isString bValue then localeCompare P (strOf aValue) (strOf bValue)
      else if isNumber aValue \<and> isNumber bValue then numOf aValue - numOf bValue
      else localeCompare P (String P aValue) (String P bValue))"

definition compare :: "platform \<Rightarrow> SortState \<Rightarrow> row \<Rightarrow> row \<Rightarrow> real" where
  "compare P sortState a b =
     (let aValue = getProp a (key sortState);
          bValue = getProp b (key sortState)
      in if aValue = bValue then 0
         else if aValue = JNull \<or> aValue = JUndefined then 1
         else if bValue = JNull \<or> bValue = JUndefined then - 1
         else if direction sortState = Asc then comparison P aValue bValue
         else - comparison P aValue bValue)"

section \<open>A platform for the examples\<close>

text \<open>
  Comparison of strings by their code units, and the conversion to a string on the
  values the examples use (for a number, the decimal digits of its integer part, which
  is what JavaScript prints for the integers).
\<close>

fun codeUnitCompare :: "string \<Rightarrow> string \<Rightarrow> real" where
  "codeUnitCompare [] [] = 0"
| "codeUnitCompare [] (y # ys) = - 1"
| "codeUnitCompare (x # xs) [] = 1"
| "codeUnitCompare (x # xs) (y # ys) =
     (if (of_char x :: nat) < of_char y then - 1
      else if (of_char y :: nat) < of_char x then 1
      else codeUnitCompare xs ys)"

function digits :: "nat \<Rightarrow> string" where
  "digits n =
     (if n < 10 then [''0123456789'' ! n] else digits (n div 10) @ [''0123456789'' ! (n mod 10)])"
  by pat_completeness auto
termination
  by (relation "measure id") auto

declare digits.simps [simp del]

fun exampleString :: "jsval \<Rightarrow> string" where
  "exampleString JUndefined = ''undefined''"
| "exampleString JNull = ''null''"
| "exampleString (JBool b) = (if b then ''true'' else ''false'')"
| "exampleString (JNum x) = (if x < 0 then ''-'' else []) @ digits (nat \<lfloor>\<bar>x\<bar>\<rfloor>)"
| "exampleString (JStr s) = s"
| "exampleString (JObj r) = ''[object Object]''"

definition examplePlatform :: platform where
  "examplePlatform = \<lparr>localeCompare = codeUnitCompare, String = exampleString\<rparr>"

section \<open>The sorted view (DataTable.tsx, lines 63 to 85)\<close>

text \<open>
  \<^verbatim>\<open>Array.prototype.sort\<close> is stable, and for a consistent comparator its result is
  determined by the language: the sorted permutation of the input that keeps tied
  elements in their input order. The model is the stable insertion sort, which puts an
  element before the first later element that it does not compare greater than. Where
  the comparator is not consistent the language leaves the order to the engine; the
  order of the model there is the insertion sort's and need not be an engine's.
\<close>

fun insertSorted :: "('a \<Rightarrow> 'a \<Rightarrow> real) \<Rightarrow> 'a \<Rightarrow> 'a list \<Rightarrow> 'a list" where
  "insertSorted cmp x [] = [x]"
| "insertSorted cmp x (y # ys) =
     (if cmp x y \<le> 0 then x # y # ys else y # insertSorted cmp x ys)"

fun jsSort :: "('a \<Rightarrow> 'a \<Rightarrow> real) \<Rightarrow> 'a list \<Rightarrow> 'a list" where
  "jsSort cmp [] = []"
| "jsSort cmp (x # xs) = insertSorted cmp x (jsSort cmp xs)"

definition sortedData :: "platform \<Rightarrow> row list \<Rightarrow> SortState option \<Rightarrow> row list" where
  "sortedData P data sortState =
     (case sortState of
        None \<Rightarrow> data
      | Some st \<Rightarrow> jsSort (compare P st) data)"

text \<open>
  The same computation on a store of arrays, where an array is known by its address:
  with no sort state the result is the caller's array itself; otherwise the spread
  \<^verbatim>\<open>[...data]\<close> allocates a copy and \<^verbatim>\<open>sort\<close> reorders that copy in place. The store
  is threaded through a world that also holds the component's state. An address is the
  index of an array in the store; a reference held by a program is always below the
  length of the store.
\<close>

record State =
  sortState :: "SortState option"
  selectedRows :: "string list"
  selectAll :: bool

record World =
  heap :: "row list list"
  component :: State

definition sortedDataIn :: "platform \<Rightarrow> World \<Rightarrow> nat \<Rightarrow> nat \<times> World" where
  "sortedDataIn P w data =
     (case sortState (component w) of
        None \<Rightarrow> (data, w)
      | Some st \<Rightarrow>
          (let copy = length (heap w);
               w1 = w\<lparr>heap := heap w @ [heap w ! data]\<rparr>;
               w2 = w1\<lparr>heap := (heap w1)[copy := jsSort (compare P st) (heap w1 ! copy)]\<rparr>
           in (copy, w2)))"

section \<open>Columns and the sort state (DataTable.tsx, lines 88 to 100)\<close>

definition handleSort :: "Column \<Rightarrow> SortState option \<Rightarrow> SortState option" where
  "handleSort column prev =
     (if sortable column \<noteq> Some True then prev
      else (case prev of
              None \<Rightarrow> Some \<lparr>key = Column.key column, direction = Asc\<rparr>
            | Some p \<Rightarrow>
                if SortState.key p \<noteq> Column.key column
                  then Some \<lparr>key = Column.key column, direction = Asc\<rparr>
                else if direction p = Asc
                  then Some \<lparr>key = Column.key column, direction = Desc\<rparr>
                else None))"

section \<open>Row identities and the selection set (DataTable.tsx, lines 47 to 60, 103 to 136)\<close>

text \<open>
  A JavaScript \<^verbatim>\<open>Set\<close> keeps its members in insertion order, without repetition: a
  list, to which \<open>add\<close> appends a new member only.
\<close>

definition setAdd :: "'a \<Rightarrow> 'a list \<Rightarrow> 'a list" where
  "setAdd x S = (if x \<in> set S then S else S @ [x])"

definition setDelete :: "'a \<Rightarrow> 'a list \<Rightarrow> 'a list" where
  "setDelete x S = removeAll x S"

definition setHas :: "'a list \<Rightarrow> 'a \<Rightarrow> bool" where
  "setHas S x = (x \<in> set S)"

definition setSize :: "'a list \<Rightarrow> nat" where
  "setSize S = length S"

definition newSet :: "'a list \<Rightarrow> 'a list" where
  "newSet xs = foldl (\<lambda>S x. setAdd x S) [] xs"

text \<open>
  The \<open>rowKey\<close> property is a field name or a function of the record, and is optional.
  The test \<^verbatim>\<open>if (rowKey)\<close> is on its truthiness, so the empty field name counts as
  absent.
\<close>

datatype rowKeyProp = KeyField string | KeyFn "row \<Rightarrow> string"

definition getRowKey :: "platform \<Rightarrow> rowKeyProp option \<Rightarrow> row \<Rightarrow> nat \<Rightarrow> string" where
  "getRowKey P rowKey record index =
     (case rowKey of
        Some (KeyFn f) \<Rightarrow> f record
      | Some (KeyField k) \<Rightarrow>
          if k \<noteq> [] then String P (getProp record k) else String P (JNum (real index))
      | None \<Rightarrow> String P (JNum (real index)))"

text \<open>\<^verbatim>\<open>xs.map((record, index) => ...)\<close> and \<^verbatim>\<open>xs.filter((record, index) => ...)\<close>.\<close>

definition mapIndexed :: "('a \<Rightarrow> nat \<Rightarrow> 'b) \<Rightarrow> 'a list \<Rightarrow> 'b list" where
  "mapIndexed f xs = map (\<lambda>(x, i). f x i) (zip xs [0..<length xs])"

definition filterIndexed :: "('a \<Rightarrow> nat \<Rightarrow> bool) \<Rightarrow> 'a list \<Rightarrow> 'a list" where
  "filterIndexed p xs = map fst (filter (\<lambda>(x, i). p x i) (zip xs [0..<length xs]))"

record Pagination =
  current :: int
  pageSize :: int
  total :: int

text \<open>
  The properties of the component. \<open>onRowSelect\<close> says whether the callback is
  registered; what a handler passes to it is part of the handler's result.
\<close>

record Props =
  data :: "row list"
  columns :: "Column list"
  loading :: bool
  selectable :: bool
  onRowSelect :: bool
  rowKey :: "rowKeyProp option"
  pagination :: "Pagination option"

definition view :: "platform \<Rightarrow> Props \<Rightarrow> State \<Rightarrow> row list" where
  "view P props s = sortedData P (data props) (sortState s)"

text \<open>
  A handler returns the next state and the call of \<open>onRowSelect\<close> it makes, if any
  (\<open>Some\<close> of the argument).
\<close>

definition handleRowSelect ::
  "platform \<Rightarrow> Props \<Rightarrow> State \<Rightarrow> string \<Rightarrow> bool \<Rightarrow> State \<times> row list option" where
  "handleRowSelect P props s rk checked =
     (let newSelectedRows =
            (if checked then setAdd rk (selectedRows s) else setDelete rk (selectedRows s));
          s' = s\<lparr>selectedRows := newSelectedRows,
                 selectAll := (setSize newSelectedRows = length (view P props s))\<rparr>
      in (s',
          if onRowSelect props
          then Some (filterIndexed
                 (\<lambda>record index. setHas newSelectedRows (getRowKey P (rowKey props) record index))
                 (view P props s))
          else None))"

definition handleSelectAll ::
  "platform \<Rightarrow> Props \<Rightarrow> State \<Rightarrow> bool \<Rightarrow> State \<times> row list option" where
  "handleSelectAll P props s checked =
     (if checked
      then (let allRowKeys = mapIndexed (getRowKey P (rowKey props)) (view P props s)
            in (s\<lparr>selectedRows := newSet allRowKeys, selectAll := True\<rparr>,
                if onRowSelect props then Some (view P props s) else None))
      else (s\<lparr>selectedRows := [], selectAll := False\<rparr>,
            if onRowSelect props then Some [] else None))"

definition viewKeys :: "platform \<Rightarrow> Props \<Rightarrow> State \<Rightarrow> string list" where
  "viewKeys P props s = mapIndexed (getRowKey P (rowKey props)) (view P props s)"

section \<open>The component as a transition system\<close>

text \<open>
  The state starts with no sort and no selection. The table, its headers and its
  checkboxes exist only when the component is neither loading nor empty, and the
  checkboxes only when it is selectable; a row checkbox exists for each row of the
  sorted view and passes that row's key. The caller may supply a new collection.
\<close>

definition initialState :: State where
  "initialState = \<lparr>sortState = None, selectedRows = [], selectAll = False\<rparr>"

datatype event =
    ClickHeader nat
  | ToggleRow nat bool
  | ToggleAll bool
  | NewData "row list"

definition tableShown :: "Props \<Rightarrow> bool" where
  "tableShown props = (\<not> loading props \<and> data props \<noteq> [])"

fun step :: "platform \<Rightarrow> Props \<times> State \<Rightarrow> event \<Rightarrow> Props \<times> State" where
  "step P (props, s) (NewData d) = (props\<lparr>data := d\<rparr>, s)"
| "step P (props, s) (ClickHeader i) =
     (if tableShown props \<and> i < length (columns props)
      then (props, s\<lparr>sortState := handleSort (columns props ! i) (sortState s)\<rparr>)
      else (props, s))"
| "step P (props, s) (ToggleRow i checked) =
     (if tableShown props \<and> selectable props \<and> i < length (view P props s)
      then (props, fst (handleRowSelect P props s
                     (getRowKey P (rowKey props) (view P props s ! i) i) checked))
      else (props, s))"
| "step P (props, s) (ToggleAll checked) =
     (if tableShown props \<and> selectable props
      then (props, fst (handleSelectAll P props s checked))
      else (props, s))"

definition run :: "platform \<Rightarrow> Props \<Rightarrow> event list \<Rightarrow> Props \<times> State" where
  "run P props evs = foldl (step P) (props, initialState) evs"

section \<open>Pagination (DataTable.tsx, lines 256 to 283)\<close>

text \<open>
  The descriptor's numbers are integers. \<^verbatim>\<open>total / pageSize\<close> is a division of
  doubles: by zero it gives an infinity or \<^verbatim>\<open>NaN\<close>, which \<^verbatim>\<open>Math.ceil\<close> returns
  unchanged and to which \<^verbatim>\<open>>=\<close> compares as JavaScript does.
\<close>

datatype pages = Finite int | PosInfinity | NegInfinity | NaN

definition ceilDiv :: "int \<Rightarrow> int \<Rightarrow> pages" where
  "ceilDiv t p =
     (if p = 0 then (if t = 0 then NaN else if 0 < t then PosInfinity else NegInfinity)
      else Finite \<lceil>real_of_int t / real_of_int p\<rceil>)"

fun geq :: "int \<Rightarrow> pages \<Rightarrow> bool" where
  "geq c (Finite n) = (n \<le> c)"
| "geq c PosInfinity = False"
| "geq c NegInfinity = True"
| "geq c NaN = False"

record PaginationInfo =
  firstShownIndex :: int
  lastShownIndex :: int
  totalPages :: pages
  previousDisabled :: bool
  nextDisabled :: bool

definition paginationInfo :: "Pagination \<Rightarrow> PaginationInfo" where
  "paginationInfo pg =
     \<lparr>firstShownIndex = (current pg - 1) * pageSize pg + 1,
      lastShownIndex = min (current pg * pageSize pg) (total pg),
      totalPages = ceilDiv (total pg) (pageSize pg),
      previousDisabled = (current pg = 1),
      nextDisabled = geq (current pg) (ceilDiv (total pg) (pageSize pg))\<rparr>"

text \<open>The pagination bar is part of the table: it is not rendered while loading or empty.\<close>

definition renderPagination :: "Props \<Rightarrow> PaginationInfo option" where
  "renderPagination props =
     (if loading props then None
      else if data props = [] then None
      else map_option paginationInfo (pagination props))"

section \<open>Notions used in the statements\<close>

text \<open>A row is defined at a key when its value there is neither \<^verbatim>\<open>null\<close> nor \<^verbatim>\<open>undefined\<close>.\<close>

definition defined :: "string \<Rightarrow> row \<Rightarrow> bool" where
  "defined K r = (\<not> nullish (getProp r K))"

text \<open>
  A comparator is consistent on a set when its sign is antisymmetric and its
  \<open>\<le> 0\<close> relation transitive there, which is what the language asks of the argument
  of \<^verbatim>\<open>sort\<close>; it is free of ties when only equal elements compare as 0.
\<close>

definition consistentOn :: "('a \<Rightarrow> 'a \<Rightarrow> real) \<Rightarrow> 'a set \<Rightarrow> bool" where
  "consistentOn cmp A =
     (\<forall>a\<in>A. \<forall>b\<in>A. (cmp a b < 0) = (0 < cmp b a)
        \<and> (\<forall>c\<in>A. cmp a b \<le> 0 \<and> cmp b c \<le> 0 \<longrightarrow> cmp a c \<le> 0))"



fun isNewData :: "event \<Rightarrow> bool" where
  "isNewData (NewData d) = True"
| "isNewData ev = False"

text \<open>
  The events that take no identity out of the selection set: a change of data, a header
  click, and ticking a row. Clearing a row's checkbox and the select-all checkbox are
  the others.
\<close>

fun keeps :: "event \<Rightarrow> bool" where
  "keeps (NewData d) = True"
| "keeps (ClickHeader i) = True"
| "keeps (ToggleRow i checked) = checked"
| "keeps (ToggleAll checked) = False"

text \<open>Every selected identity is the key of a row of the current sorted view.\<close>

definition selectionInView :: "platform \<Rightarrow> Props \<times> State \<Rightarrow> bool" where
  "selectionInView P c = (set (selectedRows (snd c)) \<subseteq> set (viewKeys P (fst c) (snd c)))"

text \<open>The table of the repository's tests, with the \<open>id\<close> field as the row key.\<close>

definition exampleProps :: Props where
  "exampleProps =
     \<lparr>data = [[(''id'', JNum 1), (''name'', JStr ''John Doe'')],
              [(''id'', JNum 2), (''name'', JStr ''Jane Smith'')]],
      columns = [\<lparr>Column.key = ''id'', title = ''ID'', dataIndex = ''id'', sortable = Some True\<rparr>,
                 \<lparr>Column.key = ''name'', title = ''Name'', dataIndex = ''name'',
                   sortable = Some True\<rparr>],
      loading = False, selectable = True, onRowSelect = True,
      rowKey = Some (KeyField ''id''), pagination = None\<rparr>"

section \<open>Properties of the comparator\<close>

lemma codeUnitCompare_refl: "codeUnitCompare s s = 0"
  by (induction s) simp_all

lemma comparison_same:
  assumes "\<And>s. localeCompare P s s = 0"
  shows "comparison P v v = 0"
  using assms by (simp add: comparison_def)

section \<open>Properties of the sort\<close>

lemma mset_insertSorted: "mset (insertSorted cmp x ys) = add_mset x (mset ys)"
  by (induction ys) simp_all

lemma mset_jsSort: "mset (jsSort cmp xs) = mset xs"
  by (induction xs) (simp_all add: mset_insertSorted)


lemma set_jsSort: "set (jsSort cmp xs) = set xs"
  using mset_jsSort [of cmp xs, THEN arg_cong, of set_mset] by simp

lemma length_jsSort: "length (jsSort cmp xs) = length xs"
  using mset_jsSort [of cmp xs, THEN arg_cong, of size] by simp





lemma consistentOn_trans:
  "consistentOn cmp A \<Longrightarrow> a \<in> A \<Longrightarrow> b \<in> A \<Longrightarrow> c \<in> A
     \<Longrightarrow> cmp a b \<le> 0 \<Longrightarrow> cmp b c \<le> 0 \<Longrightarrow> cmp a c \<le> 0"
  unfolding consistentOn_def by blast

lemma consistentOn_flip:
  assumes "consistentOn cmp A" and "a \<in> A" and "b \<in> A"
  shows "(0 \<le> cmp a b) = (cmp b a \<le> 0)"
proof -
  have "(cmp a b < 0) = (0 < cmp b a)"
    using assms by (simp add: consistentOn_def)
  then show ?thesis by linarith
qed




text \<open>Elements that the comparator ties stay in the order of the input: the sort is stable.\<close>

lemma consistentOn_tied:
  assumes c: "consistentOn cmp A" and "z \<in> A" and "x \<in> A" and "y \<in> A"
    and "cmp z x = 0" and "cmp z y = 0"
  shows "cmp x y \<le> 0"
proof -
  have "cmp x z \<le> 0"
    using consistentOn_flip [OF c, of z x] assms by simp
  moreover have "cmp z y \<le> 0"
    using assms by simp
  ultimately show ?thesis
    using consistentOn_trans [OF c, of x z y] assms by simp
qed

lemma insertSorted_stable:
  assumes c: "consistentOn cmp A" and "z \<in> A" and "x \<in> A"
  shows "set ys \<subseteq> A \<Longrightarrow>
    filter (\<lambda>y. cmp z y = 0) (insertSorted cmp x ys) = filter (\<lambda>y. cmp z y = 0) (x # ys)"
proof (induction ys)
  case Nil
  then show ?case by simp
next
  case (Cons y ys)
  show ?case
  proof (cases "cmp x y \<le> 0")
    case True
    then show ?thesis by simp
  next
    case False
    have "\<not> (cmp z x = 0 \<and> cmp z y = 0)"
      using consistentOn_tied [OF c, of z x y] False assms(2,3) Cons.prems by auto
    then show ?thesis
      using False Cons by auto
  qed
qed

lemma jsSort_stable:
  assumes c: "consistentOn cmp A" and "z \<in> A"
  shows "set xs \<subseteq> A \<Longrightarrow>
    filter (\<lambda>y. cmp z y = 0) (jsSort cmp xs) = filter (\<lambda>y. cmp z y = 0) xs"
proof (induction xs)
  case Nil
  then show ?case by simp
next
  case (Cons x xs)
  have "filter (\<lambda>y. cmp z y = 0) (insertSorted cmp x (jsSort cmp xs))
      = filter (\<lambda>y. cmp z y = 0) (x # jsSort cmp xs)"
    using Cons.prems by (intro insertSorted_stable [OF c assms(2)]) (simp_all add: set_jsSort)
  then show ?case using Cons by simp
qed











section \<open>Properties of the selection set\<close>

lemma set_setAdd: "set (setAdd x S) = insert x (set S)"
  by (auto simp: setAdd_def)

lemma set_setDelete: "set (setDelete x S) = set S - {x}"
  by (simp add: setDelete_def)

lemma distinct_setAdd: "distinct S \<Longrightarrow> distinct (setAdd x S)"
  by (simp add: setAdd_def)

lemma distinct_setDelete: "distinct S \<Longrightarrow> distinct (setDelete x S)"
  by (simp add: setDelete_def distinct_removeAll)

lemma foldl_setAdd:
  "set (foldl (\<lambda>S x. setAdd x S) A xs) = set A \<union> set xs
   \<and> (distinct A \<longrightarrow> distinct (foldl (\<lambda>S x. setAdd x S) A xs))"
  by (induction xs arbitrary: A) (auto simp: set_setAdd distinct_setAdd)

lemma set_newSet: "set (newSet xs) = set xs"
  using foldl_setAdd [of "[]" xs] by (simp add: newSet_def)

lemma distinct_newSet: "distinct (newSet xs)"
  using foldl_setAdd [of "[]" xs] by (simp add: newSet_def)

lemma setSize_card: "distinct S \<Longrightarrow> setSize S = card (set S)"
  by (simp add: setSize_def distinct_card)

lemma subseq_filter_zip:
  "length is = length xs \<Longrightarrow> subseq (map fst (filter p (zip xs is))) xs"
proof (induction xs arbitrary: "is")
  case Nil
  then show ?case by simp
next
  case (Cons x xs)
  then obtain i js where "is = i # js" "length js = length xs"
    by (cases "is") auto
  with Cons.IH [of js] show ?case by auto
qed

lemma subseq_filterIndexed: "subseq (filterIndexed p xs) xs"
  by (simp add: filterIndexed_def subseq_filter_zip)

lemma map_zip_first:
  "length xs = length ys \<Longrightarrow> map (\<lambda>(x, i). g x) (zip xs ys) = map g xs"
  by (induction xs ys rule: list_induct2) simp_all

lemma map_zip_second:
  "length xs = length ys \<Longrightarrow> map (\<lambda>(x, i). h i) (zip xs ys) = map h ys"
  by (induction xs ys rule: list_induct2) simp_all

lemma mapIndexed_record: "mapIndexed (\<lambda>r i. g r) xs = map g xs"
  by (simp add: mapIndexed_def map_zip_first)

lemma mapIndexed_index: "mapIndexed (\<lambda>r i. h i) xs = map h [0..<length xs]"
  by (simp add: mapIndexed_def map_zip_second)

lemma length_mapIndexed: "length (mapIndexed f xs) = length xs"
  by (simp add: mapIndexed_def)

lemma nth_mapIndexed: "i < length xs \<Longrightarrow> mapIndexed f xs ! i = f (xs ! i) i"
  by (simp add: mapIndexed_def)

lemma keys_permuted:
  assumes "mset xs = mset ys"
  shows "set (mapIndexed (getRowKey P rk) xs) = set (mapIndexed (getRowKey P rk) ys)"
proof -
  have s: "set xs = set ys" and l: "length xs = length ys"
    using assms by (metis mset_eq_setD, metis size_mset)
  have byRecord: "set (mapIndexed (\<lambda>r i. g r) xs) = set (mapIndexed (\<lambda>r i. g r) ys)" for g :: "row \<Rightarrow> string"
    using s by (simp add: mapIndexed_record)
  have byIndex: "set (mapIndexed (\<lambda>r i. h i) xs) = set (mapIndexed (\<lambda>r i. h i) ys)" for h :: "nat \<Rightarrow> string"
    using l by (simp add: mapIndexed_index)
  show ?thesis
  proof (cases rk)
    case None
    then have "getRowKey P rk = (\<lambda>r i. String P (JNum (real i)))"
      by (simp add: getRowKey_def fun_eq_iff)
    then show ?thesis using byIndex by simp
  next
    case (Some q)
    show ?thesis
    proof (cases q)
      case (KeyField k)
      show ?thesis
      proof (cases "k = []")
        case True
        then have "getRowKey P rk = (\<lambda>r i. String P (JNum (real i)))"
          using Some KeyField by (simp add: getRowKey_def fun_eq_iff)
        then show ?thesis using byIndex by simp
      next
        case False
        then have "getRowKey P rk = (\<lambda>r i. String P (getProp r k))"
          using Some KeyField by (simp add: getRowKey_def fun_eq_iff)
        then show ?thesis using byRecord by simp
      qed
    next
      case (KeyFn f)
      then have "getRowKey P rk = (\<lambda>r i. f r)"
        using Some by (simp add: getRowKey_def fun_eq_iff)
      then show ?thesis using byRecord by simp
    qed
  qed
qed

lemma mset_sortedData: "mset (sortedData P rows st) = mset rows"
  by (simp add: sortedData_def mset_jsSort split: option.splits)

lemma viewKeys_sortState:
  "set (viewKeys P props (s\<lparr>sortState := st\<rparr>)) = set (viewKeys P props s)"
  unfolding viewKeys_def view_def
  by (rule keys_permuted) (simp add: mset_sortedData)

lemma viewKeys_selection:
  "viewKeys P props (s\<lparr>selectedRows := S, selectAll := b\<rparr>) = viewKeys P props s"
  by (simp add: viewKeys_def view_def)

lemma step_selectionInView:
  assumes "selectionInView P (props, s)" and "\<not> isNewData ev"
  shows "selectionInView P (step P (props, s) ev)"
proof (cases ev)
  case (ClickHeader i)
  then show ?thesis
    using assms(1) by (simp add: selectionInView_def viewKeys_sortState)
next
  case (ToggleRow i checked)
  show ?thesis
  proof (cases "tableShown props \<and> selectable props \<and> i < length (view P props s)")
    case True
    let ?k = "getRowKey P (rowKey props) (view P props s ! i) i"
    have "?k = viewKeys P props s ! i"
      using True by (simp add: viewKeys_def nth_mapIndexed)
    then have "?k \<in> set (viewKeys P props s)"
      using True by (simp add: viewKeys_def length_mapIndexed)
    then show ?thesis
      using assms(1) True ToggleRow
      by (auto simp: selectionInView_def handleRowSelect_def Let_def viewKeys_selection
          set_setAdd set_setDelete)
  next
    case False
    then show ?thesis using assms(1) ToggleRow by auto
  qed
next
  case (ToggleAll checked)
  then show ?thesis
    using assms(1)
    by (auto simp: selectionInView_def handleSelectAll_def Let_def viewKeys_selection set_newSet
        viewKeys_def [symmetric])
next
  case (NewData d)
  then show ?thesis using assms(2) by simp
qed

lemma foldl_selectionInView:
  "selectionInView P c \<Longrightarrow> \<forall>ev\<in>set evs. \<not> isNewData ev
     \<Longrightarrow> selectionInView P (foldl (step P) c evs)"
proof (induction evs arbitrary: c)
  case Nil
  then show ?case by simp
next
  case (Cons ev evs)
  obtain props s where c: "c = (props, s)" by (cases c)
  have "selectionInView P (step P c ev)"
    using Cons.prems c step_selectionInView [of P props s ev] by simp
  then show ?case using Cons by simp
qed

lemma removeAll_all: "removeAll k S = [] \<Longrightarrow> S \<noteq> [] \<Longrightarrow> set S = {k}"
proof -
  assume a: "removeAll k S = []" and b: "S \<noteq> []"
  have "set S - {k} = {}"
    using a by (metis set_removeAll set_empty)
  then have "set S \<subseteq> {k}"
    by (simp only: Diff_eq_empty_iff)
  moreover have "set S \<noteq> {}"
    using b by simp
  ultimately show ?thesis
    by (simp only: subset_singleton_iff) simp
qed

lemma zip_indices: "zip xs [0..<length xs] = map (\<lambda>j. (xs ! j, j)) [0..<length xs]"
  by (rule nth_equalityI) simp_all

lemma filterIndexed_indices:
  "filterIndexed p xs = map (\<lambda>j. xs ! j) (filter (\<lambda>j. p (xs ! j) j) [0..<length xs])"
proof -
  have "filterIndexed p xs
      = map fst (filter (\<lambda>(x, i). p x i) (map (\<lambda>j. (xs ! j, j)) [0..<length xs]))"
    unfolding filterIndexed_def by (simp only: zip_indices [symmetric])
  also have "\<dots> = map (\<lambda>j. xs ! j) (filter (\<lambda>j. p (xs ! j) j) [0..<length xs])"
    by (simp add: filter_map comp_def)
  finally show ?thesis .
qed

lemma step_keeps_identity:
  assumes "k \<in> set (selectedRows s)" and "keeps ev"
  shows "k \<in> set (selectedRows (snd (step P (props, s) ev)))"
proof (cases ev)
  case (ClickHeader i)
  then show ?thesis using assms(1) by simp
next
  case (ToggleRow i checked)
  then show ?thesis
    using assms by (simp add: handleRowSelect_def Let_def set_setAdd)
next
  case (ToggleAll checked)
  then show ?thesis using assms(2) by simp
next
  case (NewData d)
  then show ?thesis using assms(1) by simp
qed

lemma foldl_keeps_identity:
  "k \<in> set (selectedRows (snd c)) \<Longrightarrow> \<forall>ev\<in>set evs. keeps ev
     \<Longrightarrow> k \<in> set (selectedRows (snd (foldl (step P) c evs)))"
proof (induction evs arbitrary: c)
  case Nil
  then show ?case by simp
next
  case (Cons ev evs)
  obtain props s where c: "c = (props, s)" by (cases c)
  have "k \<in> set (selectedRows (snd (step P c ev)))"
    using Cons.prems c step_keeps_identity [of k s ev P props] by simp
  then show ?case using Cons by simp
qed

lemma step_loses_identity:
  assumes "k \<in> set (selectedRows s)"
    and "k \<notin> set (selectedRows (snd (step P (props, s) ev)))"
  shows "(\<exists>c. ev = ToggleAll c)
       \<or> (\<exists>j. ev = ToggleRow j False \<and> j < length (view P props s)
              \<and> getRowKey P (rowKey props) (view P props s ! j) j = k)"
proof (cases ev)
  case (ClickHeader i)
  then show ?thesis using assms by (simp split: if_splits)
next
  case (ToggleRow j checked)
  have shown: "tableShown props \<and> selectable props \<and> j < length (view P props s)"
    using assms ToggleRow by (simp split: if_splits)
  have "\<not> checked"
    using assms ToggleRow shown by (auto simp: handleRowSelect_def Let_def set_setAdd)
  moreover have "getRowKey P (rowKey props) (view P props s ! j) j = k"
    using assms ToggleRow shown \<open>\<not> checked\<close>
    by (simp add: handleRowSelect_def Let_def set_setDelete)
  ultimately show ?thesis using ToggleRow shown by simp
next
  case (ToggleAll c)
  then show ?thesis by simp
next
  case (NewData d)
  then show ?thesis using assms by simp
qed

lemma step_empties:
  assumes ne: "selectedRows s \<noteq> []" and e: "selectedRows (snd (step P (props, s) ev)) = []"
  shows "(\<exists>c. ev = ToggleAll c)
       \<or> (\<exists>j. ev = ToggleRow j False
              \<and> set (selectedRows s) = {getRowKey P (rowKey props) (view P props s ! j) j})"
proof (cases ev)
  case (ClickHeader j)
  then show ?thesis using ne e by (simp split: if_splits)
next
  case (ToggleRow j checked)
  let ?k = "getRowKey P (rowKey props) (view P props s ! j) j"
  from ne e ToggleRow
  have shown: "tableShown props \<and> selectable props \<and> j < length (view P props s)"
    by (simp split: if_splits)
  with e ToggleRow
  have new: "(if checked then setAdd ?k (selectedRows s) else setDelete ?k (selectedRows s)) = []"
    by (simp add: handleRowSelect_def Let_def)
  have "\<not> checked"
    using new ne by (auto simp: setAdd_def split: if_splits)
  then have "removeAll ?k (selectedRows s) = []"
    using new by (simp add: setDelete_def)
  then have "set (selectedRows s) = {?k}"
    using ne by (rule removeAll_all)
  then show ?thesis using ToggleRow \<open>\<not> checked\<close> by simp
next
  case (ToggleAll c)
  then show ?thesis by simp
next
  case (NewData d')
  then show ?thesis using ne e by simp
qed

section \<open>Properties of the page count\<close>

lemma ceiling_least:
  fixes t p m :: int
  assumes "0 < p"
  shows "(\<lceil>real_of_int t / real_of_int p\<rceil> \<le> m) = (t \<le> m * p)"
proof -
  have "(\<lceil>real_of_int t / real_of_int p\<rceil> \<le> m) = (real_of_int t / real_of_int p \<le> real_of_int m)"
    by (rule ceiling_le_iff)
  also have "\<dots> = (real_of_int t \<le> real_of_int m * real_of_int p)"
    using assms by (simp add: pos_divide_le_eq)
  also have "\<dots> = (real_of_int t \<le> real_of_int (m * p))"
    by simp
  also have "\<dots> = (t \<le> m * p)"
    by (rule of_int_le_iff)
  finally show ?thesis .
qed

section \<open>The claims\<close>

text \<open>
  Claim C1. A \<^verbatim>\<open>null\<close> or \<^verbatim>\<open>undefined\<close> value sorts after a defined one in both
  directions: the comparator returns 1 when the first value is missing and the second
  defined, and \<open>- 1\<close> the other way round, whatever the direction. For two defined
  values it returns the comparison of the two strings when both are strings, the
  difference when both are numbers, and the comparison of the string coercions
  otherwise, negated when the direction is descending. The code returns 0 for identical
  values before it reaches these branches, which agrees with them as
  \<^verbatim>\<open>s.localeCompare(s)\<close> is 0.
\<close>

theorem compare_cases:
  assumes "\<And>s. localeCompare P s s = 0"
  shows "(nullish (getProp a K) \<and> \<not> nullish (getProp b K)
            \<longrightarrow> compare P \<lparr>key = K, direction = d\<rparr> a b = 1)
       \<and> (\<not> nullish (getProp a K) \<and> nullish (getProp b K)
            \<longrightarrow> compare P \<lparr>key = K, direction = d\<rparr> a b = - 1)
       \<and> (\<not> nullish (getProp a K) \<and> \<not> nullish (getProp b K)
            \<longrightarrow> compare P \<lparr>key = K, direction = d\<rparr> a b =
                (let c = (case (getProp a K, getProp b K) of
                            (JStr s, JStr t) \<Rightarrow> localeCompare P s t
                          | (JNum x, JNum y) \<Rightarrow> x - y
                          | (u, v) \<Rightarrow> localeCompare P (String P u) (String P v))
                 in if d = Asc then c else - c))"
proof -
  have same: "comparison P v v = 0" for v
    using assms by (rule comparison_same)
  have cases: "comparison P u v =
      (case (u, v) of
         (JStr s, JStr t) \<Rightarrow> localeCompare P s t
       | (JNum x, JNum y) \<Rightarrow> x - y
       | (u, v) \<Rightarrow> localeCompare P (String P u) (String P v))" for u v
    by (cases u; cases v) (simp_all add: comparison_def)
  have defined: "compare P \<lparr>key = K, direction = d\<rparr> a b =
      (if d = Asc then comparison P (getProp a K) (getProp b K)
       else - comparison P (getProp a K) (getProp b K))"
    if "\<not> nullish (getProp a K)" "\<not> nullish (getProp b K)"
    using that same by (simp add: compare_def nullish_def Let_def)
  show ?thesis
    using defined cases by (auto simp: compare_def nullish_def Let_def)
qed

theorem compare_cases_witness:
  "compare examplePlatform \<lparr>key = ''name'', direction = Desc\<rparr>
      [(''name'', JNull)] [(''name'', JStr ''b'')] = 1
   \<and> compare examplePlatform \<lparr>key = ''name'', direction = Desc\<rparr>
      [(''name'', JStr ''b'')] [(''name'', JNull)] = - 1
   \<and> compare examplePlatform \<lparr>key = ''name'', direction = Desc\<rparr>
      [(''name'', JStr ''a'')] [(''name'', JStr ''b'')] = 1
   \<and> compare examplePlatform \<lparr>key = ''id'', direction = Desc\<rparr>
      [(''id'', JNum 2)] [(''id'', JNum 5)] = 3
   \<and> compare examplePlatform \<lparr>key = ''id'', direction = Asc\<rparr>
      [(''id'', JNum 2)] [(''id'', JStr ''10'')] = 1"
proof -
  have r: "\<And>s. localeCompare examplePlatform s s = 0"
    by (simp add: examplePlatform_def codeUnitCompare_refl)
  show ?thesis
    using compare_cases [OF r, of "[(''name'', JNull)]" "''name''" "[(''name'', JStr ''b'')]" Desc]
      compare_cases [OF r, of "[(''name'', JStr ''b'')]" "''name''" "[(''name'', JNull)]" Desc]
      compare_cases [OF r, of "[(''name'', JStr ''a'')]" "''name''" "[(''name'', JStr ''b'')]" Desc]
      compare_cases [OF r, of "[(''id'', JNum 2)]" "''id''" "[(''id'', JNum 5)]" Desc]
      compare_cases [OF r, of "[(''id'', JNum 2)]" "''id''" "[(''id'', JStr ''10'')]" Asc]
    by (simp add: getProp_def nullish_def examplePlatform_def digits.simps)
qed

text \<open>
  Claim C2, as stated, fails: while the component is loading, or when its record
  collection is empty (as it is when there are 0 entries), it returns before the
  pagination bar and displays none of these values.
\<close>

theorem pagination_not_displayed:
  "renderPagination
     (exampleProps\<lparr>data := [], pagination := Some \<lparr>current = 1, pageSize = 2, total = 0\<rparr>\<rparr>)
     = None
   \<and> renderPagination
     (exampleProps\<lparr>loading := True, pagination := Some \<lparr>current = 3, pageSize = 2, total = 5\<rparr>\<rparr>)
     = None"
  by (simp add: renderPagination_def exampleProps_def)

text \<open>
  Claim C2, amended. For a pagination descriptor with \<open>current \<ge> 1\<close>, \<open>pageSize > 0\<close>
  and \<open>total \<ge> 0\<close>, a component that is not loading and whose record collection is not
  empty displays the first index \<open>(current - 1) * pageSize + 1\<close>, the last index
  \<open>min (current * pageSize) total\<close> and the page count \<open>\<lceil>total / pageSize\<rceil>\<close>, which is
  the least number of pages that hold \<open>total\<close> entries, with Previous disabled exactly
  on page 1 and Next exactly when \<open>current\<close> has reached the page count; with 5 entries
  in pages of 2, page 3 shows 5 to 5 of 3 pages with Next disabled. While loading or
  with an empty collection the component displays no pagination bar.
\<close>

theorem pagination_display:
  assumes "1 \<le> current pg" and "0 < pageSize pg" and "0 \<le> total pg"
    and "pagination props = Some pg"
  shows "(\<not> loading props \<and> data props \<noteq> [] \<longrightarrow>
            renderPagination props =
              Some \<lparr>firstShownIndex = (current pg - 1) * pageSize pg + 1,
                    lastShownIndex = min (current pg * pageSize pg) (total pg),
                    totalPages = Finite \<lceil>real_of_int (total pg) / real_of_int (pageSize pg)\<rceil>,
                    previousDisabled = (current pg = 1),
                    nextDisabled =
                      (current pg \<ge> \<lceil>real_of_int (total pg) / real_of_int (pageSize pg)\<rceil>)\<rparr>)
       \<and> (\<forall>m. (\<lceil>real_of_int (total pg) / real_of_int (pageSize pg)\<rceil> \<le> m)
                = (total pg \<le> m * pageSize pg))
       \<and> (\<not> loading props \<and> data props \<noteq> []
            \<and> total pg = 5 \<and> pageSize pg = 2 \<and> current pg = 3 \<longrightarrow>
            renderPagination props =
              Some \<lparr>firstShownIndex = 5, lastShownIndex = 5, totalPages = Finite 3,
                    previousDisabled = False, nextDisabled = True\<rparr>)
       \<and> (loading props \<or> data props = [] \<longrightarrow> renderPagination props = None)"
proof -
  have "\<forall>m. (\<lceil>real_of_int (total pg) / real_of_int (pageSize pg)\<rceil> \<le> m)
              = (total pg \<le> m * pageSize pg)"
    using assms(2) by (simp add: ceiling_least)
  moreover have "\<not> loading props \<and> data props \<noteq> []
      \<and> total pg = 5 \<and> pageSize pg = 2 \<and> current pg = 3 \<longrightarrow>
      renderPagination props =
        Some \<lparr>firstShownIndex = 5, lastShownIndex = 5, totalPages = Finite 3,
              previousDisabled = False, nextDisabled = True\<rparr>"
    using assms(4) by (simp add: renderPagination_def paginationInfo_def ceilDiv_def)
  moreover have "loading props \<or> data props = [] \<longrightarrow> renderPagination props = None"
    by (auto simp: renderPagination_def)
  ultimately show ?thesis
    using assms(2,4) by (simp add: renderPagination_def paginationInfo_def ceilDiv_def)
qed

theorem pagination_display_witness:
  "renderPagination
     (exampleProps\<lparr>pagination := Some \<lparr>current = 3, pageSize = 2, total = 5\<rparr>\<rparr>)
     = Some \<lparr>firstShownIndex = 5, lastShownIndex = 5, totalPages = Finite 3,
             previousDisabled = False, nextDisabled = True\<rparr>
   \<and> renderPagination
     (exampleProps\<lparr>pagination := Some \<lparr>current = 1, pageSize = 10, total = 25\<rparr>\<rparr>)
     = Some \<lparr>firstShownIndex = 1, lastShownIndex = 10, totalPages = Finite 3,
             previousDisabled = True, nextDisabled = False\<rparr>"
proof -
  have a: "pagination (exampleProps\<lparr>pagination := Some q\<rparr>) = Some q" for q
    by simp
  have s: "\<not> loading (exampleProps\<lparr>pagination := Some q\<rparr>)
      \<and> data (exampleProps\<lparr>pagination := Some q\<rparr>) \<noteq> []" for q
    by (simp add: exampleProps_def)
  have b: "1 \<le> current \<lparr>current = 3, pageSize = 2, total = 5\<rparr>"
    "0 < pageSize \<lparr>current = 3, pageSize = 2, total = 5\<rparr>"
    "0 \<le> total \<lparr>current = 3, pageSize = 2, total = 5\<rparr>"
    by simp_all
  have c: "1 \<le> current \<lparr>current = 1, pageSize = 10, total = 25\<rparr>"
    "0 < pageSize \<lparr>current = 1, pageSize = 10, total = 25\<rparr>"
    "0 \<le> total \<lparr>current = 1, pageSize = 10, total = 25\<rparr>"
    by simp_all
  show ?thesis
    using pagination_display [OF b a] pagination_display [OF c a] s
    by simp
qed




text \<open>
  Claim C4. \<open>toggleAll(true)\<close> makes the selection set the set of the row identities of
  the current sorted view and, when a callback is registered, calls it with the whole
  sorted view; \<open>toggleAll(false)\<close> makes the set empty and calls the callback with the
  empty sequence; so \<open>toggleAll(true)\<close> followed by \<open>toggleAll(false)\<close> leaves the set
  empty.
\<close>

theorem handleSelectAll_sets:
  "set (selectedRows (fst (handleSelectAll P props s True))) = set (viewKeys P props s)
   \<and> (onRowSelect props \<longrightarrow> snd (handleSelectAll P props s True) = Some (view P props s))
   \<and> selectedRows (fst (handleSelectAll P props s False)) = []
   \<and> (onRowSelect props \<longrightarrow> snd (handleSelectAll P props s False) = Some [])
   \<and> selectedRows (fst (handleSelectAll P props (fst (handleSelectAll P props s True)) False)) = []
   \<and> (onRowSelect props \<longrightarrow>
        snd (handleSelectAll P props (fst (handleSelectAll P props s True)) False) = Some [])"
  by (simp add: handleSelectAll_def viewKeys_def set_newSet Let_def)

theorem handleSelectAll_sets_witness:
  "selectedRows (fst (handleSelectAll examplePlatform exampleProps initialState True))
     = [''1'', ''2'']
   \<and> snd (handleSelectAll examplePlatform exampleProps initialState True)
     = Some (data exampleProps)
   \<and> snd (handleSelectAll examplePlatform exampleProps
        (fst (handleSelectAll examplePlatform exampleProps initialState True)) False) = Some []"
  using handleSelectAll_sets [of examplePlatform exampleProps initialState]
  by (simp add: handleSelectAll_def Let_def exampleProps_def initialState_def view_def sortedData_def
      mapIndexed_def getRowKey_def getProp_def examplePlatform_def digits.simps newSet_def
      setAdd_def)

text \<open>
  Claim C5. For a selection set \<open>S\<close> and any identity \<open>i\<close>, in the view or not,
  \<open>toggleRow(i, true)\<close> gives \<open>S \<union> {i}\<close> and \<open>toggleRow(i, false)\<close> gives \<open>S - {i}\<close>; the
  flag "all selected" becomes whether the number of members of the new set is the
  length of the sorted view; and a registered callback is called once, with the rows
  of the sorted view at the positions whose identity is in the new set, in increasing
  position, so in the order of the view. Without a registered callback nothing is
  called.
\<close>

theorem handleRowSelect_sets:
  assumes "distinct (selectedRows s)"
  shows "set (selectedRows (fst (handleRowSelect P props s i True))) = set (selectedRows s) \<union> {i}
   \<and> set (selectedRows (fst (handleRowSelect P props s i False))) = set (selectedRows s) - {i}
   \<and> selectAll (fst (handleRowSelect P props s i True))
        = (card (set (selectedRows s) \<union> {i}) = length (view P props s))
   \<and> selectAll (fst (handleRowSelect P props s i False))
        = (card (set (selectedRows s) - {i}) = length (view P props s))
   \<and> sortState (fst (handleRowSelect P props s i checked)) = sortState s
   \<and> (onRowSelect props \<longrightarrow>
        snd (handleRowSelect P props s i True)
          = Some (map (\<lambda>j. view P props s ! j)
                   (filter (\<lambda>j. getRowKey P (rowKey props) (view P props s ! j) j
                                  \<in> set (selectedRows s) \<union> {i})
                      [0..<length (view P props s)]))
        \<and> snd (handleRowSelect P props s i False)
          = Some (map (\<lambda>j. view P props s ! j)
                   (filter (\<lambda>j. getRowKey P (rowKey props) (view P props s ! j) j
                                  \<in> set (selectedRows s) - {i})
                      [0..<length (view P props s)]))
        \<and> subseq (the (snd (handleRowSelect P props s i checked))) (view P props s))
   \<and> (\<not> onRowSelect props \<longrightarrow> snd (handleRowSelect P props s i checked) = None)"
proof -
  have d: "distinct (selectedRows (fst (handleRowSelect P props s i c)))" for c
    using assms by (simp add: handleRowSelect_def Let_def distinct_setAdd distinct_setDelete)
  have sz: "selectAll (fst (handleRowSelect P props s i c))
      = (card (set (selectedRows (fst (handleRowSelect P props s i c))))
           = length (view P props s))" for c
    using setSize_card [OF d, of c] by (simp add: handleRowSelect_def Let_def)
  have sets: "set (selectedRows (fst (handleRowSelect P props s i c)))
      = (if c then set (selectedRows s) \<union> {i} else set (selectedRows s) - {i})" for c
    by (simp add: handleRowSelect_def Let_def set_setAdd set_setDelete)
  have cb: "snd (handleRowSelect P props s i c)
      = Some (map (\<lambda>j. view P props s ! j)
               (filter (\<lambda>j. getRowKey P (rowKey props) (view P props s ! j) j
                    \<in> (if c then set (selectedRows s) \<union> {i} else set (selectedRows s) - {i}))
                  [0..<length (view P props s)]))"
    if "onRowSelect props" for c
    using that
    by (simp add: handleRowSelect_def Let_def filterIndexed_indices setHas_def
        set_setAdd set_setDelete)
  have sub: "subseq (the (snd (handleRowSelect P props s i checked))) (view P props s)"
    if "onRowSelect props"
    using that by (simp add: handleRowSelect_def Let_def subseq_filterIndexed)
  have none: "snd (handleRowSelect P props s i checked) = None" if "\<not> onRowSelect props"
    using that by (simp add: handleRowSelect_def Let_def)
  have st: "sortState (fst (handleRowSelect P props s i checked)) = sortState s"
    by (simp add: handleRowSelect_def Let_def)
  show ?thesis
    using sz [of True] sz [of False] sets [of True] sets [of False] cb [of True] cb [of False]
      sub none st
    by simp
qed

theorem handleRowSelect_sets_witness:
  "handleRowSelect examplePlatform exampleProps initialState ''1'' True
     = (\<lparr>sortState = None, selectedRows = [''1''], selectAll = False\<rparr>,
        Some [[(''id'', JNum 1), (''name'', JStr ''John Doe'')]])
   \<and> handleRowSelect examplePlatform exampleProps (initialState\<lparr>selectedRows := [''2'']\<rparr>)
       ''1'' True
     = (\<lparr>sortState = None, selectedRows = [''2'', ''1''], selectAll = True\<rparr>,
        Some [[(''id'', JNum 1), (''name'', JStr ''John Doe'')],
              [(''id'', JNum 2), (''name'', JStr ''Jane Smith'')]])
   \<and> handleRowSelect examplePlatform exampleProps (initialState\<lparr>selectedRows := [''2'']\<rparr>)
       ''9'' True
     = (\<lparr>sortState = None, selectedRows = [''2'', ''9''], selectAll = True\<rparr>,
        Some [[(''id'', JNum 2), (''name'', JStr ''Jane Smith'')]])
   \<and> handleRowSelect examplePlatform exampleProps
       (initialState\<lparr>selectedRows := [''2'', ''1''], selectAll := True\<rparr>) ''2'' False
     = (\<lparr>sortState = None, selectedRows = [''1''], selectAll = False\<rparr>,
        Some [[(''id'', JNum 1), (''name'', JStr ''John Doe'')]])"
proof -
  have d0: "distinct (selectedRows initialState)"
    by (simp add: initialState_def)
  have d1: "distinct (selectedRows (initialState\<lparr>selectedRows := [''2'']\<rparr>))"
    by simp
  have d2: "distinct (selectedRows (initialState\<lparr>selectedRows := [''2'', ''1''], selectAll := True\<rparr>))"
    by simp
  show ?thesis
    using handleRowSelect_sets [OF d0, of examplePlatform exampleProps "''1''" True]
      handleRowSelect_sets [OF d1, of examplePlatform exampleProps "''1''" True]
      handleRowSelect_sets [OF d1, of examplePlatform exampleProps "''9''" True]
      handleRowSelect_sets [OF d2, of examplePlatform exampleProps "''2''" False]
    by (simp add: handleRowSelect_def Let_def exampleProps_def initialState_def view_def
        sortedData_def filterIndexed_def getRowKey_def getProp_def examplePlatform_def
        digits.simps setAdd_def setDelete_def setSize_def setHas_def)
qed

text \<open>
  Claim C6. A click on the header of a sortable column takes the sort state through
  none, ascending, descending and none again for that column's key; when another key
  is the sorted one, it sets ascending for the clicked column's key; a click on a
  column that is not sortable leaves the sort state as it is.
\<close>

theorem handleSort_cycle:
  "(sortable c = Some True \<longrightarrow>
       handleSort c None = Some \<lparr>key = Column.key c, direction = Asc\<rparr>
     \<and> handleSort c (Some \<lparr>key = Column.key c, direction = Asc\<rparr>)
         = Some \<lparr>key = Column.key c, direction = Desc\<rparr>
     \<and> handleSort c (Some \<lparr>key = Column.key c, direction = Desc\<rparr>) = None
     \<and> (k \<noteq> Column.key c \<longrightarrow>
          handleSort c (Some \<lparr>key = k, direction = d\<rparr>)
            = Some \<lparr>key = Column.key c, direction = Asc\<rparr>))
   \<and> (sortable c \<noteq> Some True \<longrightarrow> handleSort c prev = prev)"
  by (simp add: handleSort_def)

theorem handleSort_cycle_witness:
  "handleSort (columns exampleProps ! 1) None = Some \<lparr>key = ''name'', direction = Asc\<rparr>
   \<and> handleSort (columns exampleProps ! 1) (Some \<lparr>key = ''name'', direction = Asc\<rparr>)
       = Some \<lparr>key = ''name'', direction = Desc\<rparr>
   \<and> handleSort (columns exampleProps ! 1) (Some \<lparr>key = ''name'', direction = Desc\<rparr>) = None
   \<and> handleSort (columns exampleProps ! 1) (Some \<lparr>key = ''id'', direction = Desc\<rparr>)
       = Some \<lparr>key = ''name'', direction = Asc\<rparr>
   \<and> handleSort ((columns exampleProps ! 1)\<lparr>sortable := None\<rparr>)
         (Some \<lparr>key = ''id'', direction = Desc\<rparr>) = Some \<lparr>key = ''id'', direction = Desc\<rparr>"
  using handleSort_cycle [of "columns exampleProps ! 1" "''id''" Desc None]
    handleSort_cycle [of "(columns exampleProps ! 1)\<lparr>sortable := None\<rparr>" "''id''" Desc
      "Some \<lparr>key = ''id'', direction = Desc\<rparr>"]
  by (simp add: exampleProps_def)

text \<open>
  Claim C7. With no sort state the sorted view is the input collection, in its order
  (the very same array). Computing the sorted view changes no array that existed
  before, the caller's collection among them, since the sort works on a fresh copy; and
  it leaves the component's state, the selection set included, as it was.
\<close>

theorem sortedDataIn_frame:
  assumes "ref < length (heap w)"
  shows "heap (snd (sortedDataIn P w ref)) ! fst (sortedDataIn P w ref)
           = sortedData P (heap w ! ref) (sortState (component w))
       \<and> (\<forall>a < length (heap w). heap (snd (sortedDataIn P w ref)) ! a = heap w ! a)
       \<and> component (snd (sortedDataIn P w ref)) = component w
       \<and> (sortState (component w) = None \<longrightarrow>
            sortedDataIn P w ref = (ref, w) \<and> sortedData P (heap w ! ref) None = heap w ! ref)"
  using assms
  by (auto simp: sortedDataIn_def sortedData_def Let_def nth_append split: option.splits)

theorem sortedDataIn_frame_witness:
  "sortedDataIn examplePlatform
     \<lparr>heap = [data exampleProps],
      component = initialState\<lparr>sortState := Some \<lparr>key = ''name'', direction = Asc\<rparr>\<rparr>\<rparr> 0
   = (1, \<lparr>heap = [data exampleProps, rev (data exampleProps)],
          component = initialState\<lparr>sortState := Some \<lparr>key = ''name'', direction = Asc\<rparr>\<rparr>\<rparr>)
   \<and> sortedDataIn examplePlatform \<lparr>heap = [data exampleProps], component = initialState\<rparr> 0
   = (0, \<lparr>heap = [data exampleProps], component = initialState\<rparr>)"
proof -
  have r: "0 < length (heap \<lparr>heap = [data exampleProps], component = c\<rparr>)" for c
    by simp
  show ?thesis
    using sortedDataIn_frame [OF r, where P = examplePlatform
          and c1 = "initialState\<lparr>sortState := Some \<lparr>key = ''name'', direction = Asc\<rparr>\<rparr>"]
      sortedDataIn_frame [OF r, where P = examplePlatform and c1 = initialState]
    by (simp add: sortedDataIn_def initialState_def exampleProps_def compare_def comparison_def
        getProp_def examplePlatform_def)
qed

text \<open>
  Claim C8, as stated, fails: after the row with identity 1 is selected and the caller
  supplies a collection that holds only the row with identity 2, the selection set
  still holds 1, which is the identity of no row of the view.
\<close>

theorem selection_outside_view:
  "\<not> set (selectedRows (snd (run examplePlatform exampleProps
            [ToggleRow 0 True, NewData [[(''id'', JNum 2), (''name'', JStr ''Jane Smith'')]]])))
      \<subseteq> set (viewKeys examplePlatform
          (fst (run examplePlatform exampleProps
            [ToggleRow 0 True, NewData [[(''id'', JNum 2), (''name'', JStr ''Jane Smith'')]]]))
          (snd (run examplePlatform exampleProps
            [ToggleRow 0 True, NewData [[(''id'', JNum 2), (''name'', JStr ''Jane Smith'')]]])))"
  by (simp add: run_def exampleProps_def initialState_def tableShown_def view_def viewKeys_def
      sortedData_def handleRowSelect_def Let_def mapIndexed_def getRowKey_def getProp_def
      examplePlatform_def digits.simps setAdd_def setSize_def)

text \<open>
  Claim C8, amended. In every state reached from the initial one by header clicks, row
  checkboxes and the select-all checkbox, while the caller does not replace the record
  collection, the selection set is a subset of the row identities of the current
  sorted view.
\<close>

theorem selection_within_view:
  assumes "\<forall>ev\<in>set evs. \<not> isNewData ev"
  shows "set (selectedRows (snd (run P props evs)))
           \<subseteq> set (viewKeys P (fst (run P props evs)) (snd (run P props evs)))"
proof -
  have "selectionInView P (props, initialState)"
    by (simp add: selectionInView_def initialState_def)
  then have "selectionInView P (run P props evs)"
    unfolding run_def using assms by (rule foldl_selectionInView)
  then show ?thesis by (simp add: selectionInView_def)
qed

theorem selection_within_view_witness:
  "selectedRows (snd (run examplePlatform exampleProps
       [ToggleRow 0 True, ClickHeader 1, ToggleRow 0 True])) = [''1'', ''2'']
   \<and> viewKeys examplePlatform
       (fst (run examplePlatform exampleProps [ToggleRow 0 True, ClickHeader 1, ToggleRow 0 True]))
       (snd (run examplePlatform exampleProps [ToggleRow 0 True, ClickHeader 1, ToggleRow 0 True]))
     = [''2'', ''1'']"
proof -
  have h: "\<forall>ev\<in>set [ToggleRow 0 True, ClickHeader 1, ToggleRow 0 True]. \<not> isNewData ev"
    by simp
  show ?thesis
    using selection_within_view [OF h, of examplePlatform exampleProps]
    by (simp add: run_def exampleProps_def initialState_def tableShown_def view_def viewKeys_def
        sortedData_def handleRowSelect_def Let_def handleSort_def mapIndexed_def getRowKey_def
        getProp_def compare_def comparison_def examplePlatform_def digits.simps setAdd_def
        setSize_def)
qed

text \<open>
  Claim C9, as stated, fails twice. After the row with identity 1 is selected and the
  caller supplies a collection that holds only the row with identity 2, ticking the
  select-all checkbox replaces the set by the identities of the new view: 1 is gone
  with no \<open>toggleAll(false)\<close>. And the set also becomes empty when the checkbox of the
  only selected row is cleared, which is neither select-none nor select-all.
\<close>

theorem selection_lost_otherwise:
  "selectedRows (snd (run examplePlatform exampleProps
      [ToggleRow 0 True, NewData [[(''id'', JNum 2), (''name'', JStr ''Jane Smith'')]]]))
     = [''1'']
   \<and> selectedRows (snd (run examplePlatform exampleProps
      [ToggleRow 0 True, NewData [[(''id'', JNum 2), (''name'', JStr ''Jane Smith'')]],
       ToggleAll True]))
     = [''2'']
   \<and> selectedRows (snd (run examplePlatform exampleProps [ToggleRow 0 True])) = [''1'']
   \<and> selectedRows (snd (run examplePlatform exampleProps [ToggleRow 0 True, ToggleRow 0 False]))
     = []"
  by (simp add: run_def exampleProps_def initialState_def tableShown_def view_def
      sortedData_def handleRowSelect_def handleSelectAll_def Let_def mapIndexed_def
      getRowKey_def getProp_def examplePlatform_def digits.simps newSet_def setAdd_def
      setDelete_def setSize_def)

text \<open>
  Claim C9, amended. Replacing the record collection never changes the selection set.
  After a row of the view is selected and a new collection supplied, with or without a
  row of that identity, the set holds the identity, and keeps holding it through any
  further changes of data, header clicks and ticks of rows. An identity leaves the set
  only through the select-all checkbox (ticking it replaces the set by the identities
  of the current view, clearing it empties the set) or by clearing the checkbox of a
  row with that identity. The set becomes empty only through the select-all checkbox
  or by clearing the checkbox of the only identity selected, never on a change of
  data.
\<close>

theorem selection_survives_data:
  "selectedRows (snd (foldl (step P) (props, s) (map NewData ds))) = selectedRows s
   \<and> (tableShown props \<and> selectable props \<and> i < length (view P props s)
        \<and> (\<forall>ev\<in>set evs. keeps ev) \<longrightarrow>
        getRowKey P (rowKey props) (view P props s ! i) i
          \<in> set (selectedRows (snd (foldl (step P) (props, s)
                                      (ToggleRow i True # NewData d # evs)))))
   \<and> (k \<in> set (selectedRows s) \<and> k \<notin> set (selectedRows (snd (step P (props, s) ev))) \<longrightarrow>
        (\<exists>c. ev = ToggleAll c)
        \<or> (\<exists>j. ev = ToggleRow j False \<and> j < length (view P props s)
              \<and> getRowKey P (rowKey props) (view P props s ! j) j = k))
   \<and> (tableShown props \<and> selectable props \<longrightarrow>
        set (selectedRows (snd (step P (props, s) (ToggleAll True)))) = set (viewKeys P props s)
        \<and> selectedRows (snd (step P (props, s) (ToggleAll False))) = [])
   \<and> (selectedRows s \<noteq> [] \<and> selectedRows (snd (step P (props, s) ev)) = [] \<longrightarrow>
        (\<exists>c. ev = ToggleAll c)
        \<or> (\<exists>j. ev = ToggleRow j False
              \<and> set (selectedRows s) = {getRowKey P (rowKey props) (view P props s ! j) j}))"
proof -
  have dataOnly: "selectedRows (snd (foldl (step P) c (map NewData ds))) = selectedRows (snd c)"
    for c
  proof (induction ds arbitrary: c)
    case Nil
    then show ?case by simp
  next
    case (Cons d ds)
    obtain p' s' where c: "c = (p', s')" by (cases c)
    show ?case using Cons [of "step P c (NewData d)"] c by simp
  qed
  have scenario: "getRowKey P (rowKey props) (view P props s ! i) i
          \<in> set (selectedRows (snd (foldl (step P) (props, s)
                                      (ToggleRow i True # NewData d # evs))))"
    if shown: "tableShown props \<and> selectable props \<and> i < length (view P props s)"
      and ks: "\<forall>ev\<in>set evs. keeps ev"
  proof -
    let ?k = "getRowKey P (rowKey props) (view P props s ! i) i"
    let ?c = "step P (step P (props, s) (ToggleRow i True)) (NewData d)"
    have "?k \<in> set (selectedRows (snd ?c))"
      using shown by (simp add: handleRowSelect_def Let_def set_setAdd)
    then have "?k \<in> set (selectedRows (snd (foldl (step P) ?c evs)))"
      using ks by (rule foldl_keeps_identity)
    then show ?thesis by simp
  qed
  have all: "set (selectedRows (snd (step P (props, s) (ToggleAll True)))) = set (viewKeys P props s)
        \<and> selectedRows (snd (step P (props, s) (ToggleAll False))) = []"
    if "tableShown props \<and> selectable props"
    using that by (simp add: handleSelectAll_def Let_def set_newSet viewKeys_def)
  show ?thesis
    using dataOnly [of "(props, s)"] scenario all
      step_loses_identity [of k s P props ev] step_empties [of s P props ev]
    by simp
qed

theorem selection_survives_data_witness:
  "selectedRows (snd (foldl (step examplePlatform) (exampleProps, initialState)
      [ToggleRow 0 True, NewData [[(''id'', JNum 2), (''name'', JStr ''Jane Smith'')]],
       ClickHeader 1, ToggleRow 0 True, NewData []])) = [''1'', ''2'']
   \<and> viewKeys examplePlatform
      (exampleProps\<lparr>data := [[(''id'', JNum 2), (''name'', JStr ''Jane Smith'')]]\<rparr>)
      (snd (step examplePlatform (exampleProps, initialState) (ToggleRow 0 True))) = [''2'']
   \<and> selectedRows (snd (step examplePlatform
      (step examplePlatform
        (step examplePlatform (exampleProps, initialState) (ToggleRow 0 True))
        (NewData [[(''id'', JNum 2), (''name'', JStr ''Jane Smith'')]]))
      (ToggleAll False))) = []"
proof -
  have shown: "tableShown exampleProps \<and> selectable exampleProps
      \<and> 0 < length (view examplePlatform exampleProps initialState)
      \<and> (\<forall>ev\<in>set [ClickHeader 1, ToggleRow 0 True, NewData []]. keeps ev)"
    by (simp add: tableShown_def exampleProps_def view_def sortedData_def initialState_def)
  show ?thesis
    using shown selection_survives_data [of examplePlatform exampleProps initialState "[]" 0
        "[ClickHeader 1, ToggleRow 0 True, NewData []]"
        "[[(''id'', JNum 2), (''name'', JStr ''Jane Smith'')]]" "''1''" "ToggleAll False"]
    by (simp add: exampleProps_def initialState_def tableShown_def view_def viewKeys_def
        sortedData_def handleRowSelect_def Let_def handleSelectAll_def handleSort_def
        mapIndexed_def getRowKey_def getProp_def compare_def comparison_def
        examplePlatform_def digits.simps setAdd_def setSize_def)
qed

text \<open>
  Claim C10. When the sort-key value of \<open>a\<close> is \<^verbatim>\<open>null\<close> and that of \<open>b\<close> is
  \<^verbatim>\<open>undefined\<close>, the comparator returns 1 for \<open>(a, b)\<close> and 1 for \<open>(b, a)\<close>: each is
  ordered after the other, so the comparator is not antisymmetric there. Two rows whose
  values are identical under \<^verbatim>\<open>===\<close> (two \<^verbatim>\<open>null\<close>s included) compare as 0.
\<close>

theorem compare_null_undefined:
  "(getProp a (key st) = JNull \<and> getProp b (key st) = JUndefined
      \<longrightarrow> compare P st a b = 1 \<and> compare P st b a = 1)
   \<and> (getProp a (key st) = getProp b (key st) \<longrightarrow> compare P st a b = 0)"
  by (simp add: compare_def)

theorem compare_null_undefined_witness:
  "compare examplePlatform \<lparr>key = ''name'', direction = Asc\<rparr>
      [(''id'', JNum 1), (''name'', JNull)] [(''id'', JNum 2)] = 1
   \<and> compare examplePlatform \<lparr>key = ''name'', direction = Asc\<rparr>
      [(''id'', JNum 2)] [(''id'', JNum 1), (''name'', JNull)] = 1
   \<and> compare examplePlatform \<lparr>key = ''name'', direction = Desc\<rparr>
      [(''id'', JNum 1), (''name'', JNull)] [(''id'', JNum 3), (''name'', JNull)] = 0"
  using compare_null_undefined [of "[(''id'', JNum 1), (''name'', JNull)]"
      "\<lparr>key = ''name'', direction = Asc\<rparr>" "[(''id'', JNum 2)]" examplePlatform]
    compare_null_undefined [of "[(''id'', JNum 1), (''name'', JNull)]"
      "\<lparr>key = ''name'', direction = Desc\<rparr>" "[(''id'', JNum 3), (''name'', JNull)]" examplePlatform]
  by (simp add: getProp_def)

end
